theory Spec2Isabelle
  imports Main
begin

section \<open>Python values and errors\<close>

text \<open>
  The values that travel through the cache and the database helpers are JSON-like Python
  objects. A \<open>dict\<close> is an association list in insertion order (Python dicts keep it).
  Floats are left out. Strings are byte strings (ASCII).
\<close>

datatype pyval =
    PNone
  | PBool bool
  | PInt int
  | PStr string
  | PList "pyval list"
  | PDict "(pyval \<times> pyval) list"

text \<open>
  Every error below is a subclass of Python's \<open>Exception\<close>, so the two
  \<open>except Exception\<close> handlers of the examples catch each of them.
\<close>

datatype pyerr =
    NameError string
  | TypeError
  | AttributeError
  | KeyError
  | ValueError
  | StoreUnavailable
  | SerializationFailure
  | ComputationFailure string

text \<open>Truth value testing, as \<open>if cached_data:\<close> does it.\<close>

fun truthy :: "pyval \<Rightarrow> bool" where
  "truthy PNone = False"
| "truthy (PBool b) = b"
| "truthy (PInt i) = (i \<noteq> 0)"
| "truthy (PStr s) = (s \<noteq> [])"
| "truthy (PList xs) = (xs \<noteq> [])"
| "truthy (PDict kvs) = (kvs \<noteq> [])"

section \<open>Rendering and parsing integers\<close>

text \<open>\<open>str(n)\<close> for an int, which is what an f-string field does: decimal, a minus sign
  when negative.\<close>

definition digit_char :: "nat \<Rightarrow> char" where
  "digit_char d = ''0123456789'' ! d"

function str_nat :: "nat \<Rightarrow> string" where
  "str_nat n = (if n < 10 then [digit_char n] else str_nat (n div 10) @ [digit_char (n mod 10)])"
  by pat_completeness auto
termination
  by (relation "measure (\<lambda>n. n)") auto

declare str_nat.simps [simp del]

definition str_int :: "int \<Rightarrow> string" where
  "str_int i = (if i < 0 then CHR ''-'' # str_nat (nat (- i)) else str_nat (nat i))"

text \<open>
  \<open>int(s)\<close> for a string in base 10: surrounding whitespace (tab, newline, vertical
  tab, form feed, carriage return, space) is stripped, one sign is
  allowed, then digits, with single underscores between digits. Anything else raises
  ValueError. The limit that recent interpreters put on the number of digits is not
  modelled.
\<close>

definition is_space :: "char \<Rightarrow> bool" where
  "is_space c = (let n = (of_char c :: nat) in (9 \<le> n \<and> n \<le> 13) \<or> n = 32)"

definition is_digit :: "char \<Rightarrow> bool" where
  "is_digit c = (let n = (of_char c :: nat) in 48 \<le> n \<and> n \<le> 57)"

definition digit_val :: "char \<Rightarrow> nat" where
  "digit_val c = (of_char c :: nat) - 48"

definition strip :: "string \<Rightarrow> string" where
  "strip s = rev (dropWhile is_space (rev (dropWhile is_space s)))"

fun parse_digits :: "nat \<Rightarrow> string \<Rightarrow> nat option" where
  "parse_digits acc [] = Some acc"
| "parse_digits acc (c # cs) =
     (if c = CHR ''_'' then
        (case cs of
           [] \<Rightarrow> None
         | d # ds \<Rightarrow> if is_digit d then parse_digits (acc * 10 + digit_val d) ds else None)
      else if is_digit c then parse_digits (acc * 10 + digit_val c) cs
      else None)"

definition parse_unsigned :: "string \<Rightarrow> nat option" where
  "parse_unsigned s =
     (case s of
        [] \<Rightarrow> None
      | d # ds \<Rightarrow> if is_digit d then parse_digits (digit_val d) ds else None)"

definition py_int :: "string \<Rightarrow> pyerr + int" where
  "py_int s =
     (let t = strip s in
      case t of
        [] \<Rightarrow> Inl ValueError
      | c # cs \<Rightarrow>
          if c = CHR ''-'' then
            (case parse_unsigned cs of None \<Rightarrow> Inl ValueError | Some n \<Rightarrow> Inr (- int n))
          else if c = CHR ''+'' then
            (case parse_unsigned cs of None \<Rightarrow> Inl ValueError | Some n \<Rightarrow> Inr (int n))
          else
            (case parse_unsigned t of None \<Rightarrow> Inl ValueError | Some n \<Rightarrow> Inr (int n)))"

section \<open>config/settings.py: RedisConfig\<close>

text \<open>
  The process environment (after \<open>load_dotenv()\<close>) maps variable names to strings.
  \<open>os.getenv(name, default)\<close> returns the default only when the variable is unset; a
  variable set to the empty string yields the empty string.
\<close>

type_synonym environ = "string \<rightharpoonup> string"

definition getenv :: "environ \<Rightarrow> string \<Rightarrow> string \<Rightarrow> string" where
  "getenv env name dflt = (case env name of None \<Rightarrow> dflt | Some v \<Rightarrow> v)"

record RedisConfig =
  REDIS_HOST :: string
  REDIS_PORT :: int
  REDIS_DB :: int
  REDIS_PASSWORD :: string
  REDIS_URL :: string
  CACHE_TTL :: int
  CACHE_PREFIX :: string

text \<open>
  The class body runs once, when the module is imported: it reads the environment and
  stores the values as class attributes. A malformed number makes \<open>int(...)\<close> raise,
  and the import fails. The attributes are evaluated in the order of the class body.
\<close>

definition load_RedisConfig :: "environ \<Rightarrow> pyerr + RedisConfig" where
  "load_RedisConfig env =
     (case py_int (getenv env ''REDIS_PORT'' ''6379'') of
        Inl e \<Rightarrow> Inl e
      | Inr port \<Rightarrow>
     (case py_int (getenv env ''REDIS_DB'' ''0'') of
        Inl e \<Rightarrow> Inl e
      | Inr dbi \<Rightarrow>
     (case py_int (getenv env ''CACHE_TTL'' ''3600'') of
        Inl e \<Rightarrow> Inl e
      | Inr ttl \<Rightarrow>
          Inr \<lparr> REDIS_HOST = getenv env ''REDIS_HOST'' ''localhost'',
                REDIS_PORT = port,
                REDIS_DB = dbi,
                REDIS_PASSWORD = getenv env ''REDIS_PASSWORD'' [],
                REDIS_URL = getenv env ''REDIS_URL'' [],
                CACHE_TTL = ttl,
                CACHE_PREFIX = getenv env ''CACHE_PREFIX'' ''bot_cache:'' \<rparr>)))"

text \<open>\<open>get_redis_url\<close> reads the class attributes only, never the environment.\<close>

definition get_redis_url :: "RedisConfig \<Rightarrow> string" where
  "get_redis_url cls =
     (if REDIS_URL cls \<noteq> [] then REDIS_URL cls
      else if REDIS_PASSWORD cls \<noteq> [] then
        ''redis://:'' @ REDIS_PASSWORD cls @ ''@'' @ REDIS_HOST cls @ '':''
          @ str_int (REDIS_PORT cls) @ ''/'' @ str_int (REDIS_DB cls)
      else
        ''redis://'' @ REDIS_HOST cls @ '':''
          @ str_int (REDIS_PORT cls) @ ''/'' @ str_int (REDIS_DB cls))"

section \<open>Dictionaries and the other object operations the examples use\<close>

text \<open>
  Keys are compared as Python compares hashable objects: \<open>True == 1\<close> and
  \<open>False == 0\<close>, everything else structurally. Lists and dicts are unhashable.
\<close>

fun hashable :: "pyval \<Rightarrow> bool" where
  "hashable (PList xs) = False"
| "hashable (PDict kvs) = False"
| "hashable v = True"

fun norm_key :: "pyval \<Rightarrow> pyval" where
  "norm_key (PBool b) = PInt (if b then 1 else 0)"
| "norm_key v = v"

definition key_eq :: "pyval \<Rightarrow> pyval \<Rightarrow> bool" where
  "key_eq a b = (norm_key a = norm_key b)"

fun dict_lookup :: "(pyval \<times> pyval) list \<Rightarrow> pyval \<Rightarrow> pyval option" where
  "dict_lookup [] k = None"
| "dict_lookup ((k', v) # kvs) k = (if key_eq k' k then Some v else dict_lookup kvs k)"

text \<open>\<open>d[k] = v\<close>: an existing key keeps its place and its key object; a new key goes last.\<close>

fun dict_setitem :: "(pyval \<times> pyval) list \<Rightarrow> pyval \<Rightarrow> pyval \<Rightarrow> (pyval \<times> pyval) list" where
  "dict_setitem [] k v = [(k, v)]"
| "dict_setitem ((k', v') # kvs) k v =
     (if key_eq k' k then (k', v) # kvs else (k', v') # dict_setitem kvs k v)"

text \<open>\<open>obj.get(key, default)\<close>: only a dict has the method.\<close>

definition py_get :: "pyval \<Rightarrow> pyval \<Rightarrow> pyval \<Rightarrow> pyerr + pyval" where
  "py_get obj k dflt =
     (case obj of
        PDict kvs \<Rightarrow>
          if hashable k then Inr (case dict_lookup kvs k of None \<Rightarrow> dflt | Some v \<Rightarrow> v)
          else Inl TypeError
      | _ \<Rightarrow> Inl AttributeError)"

text \<open>\<open>for x in obj\<close>: a list yields its elements, a dict its keys, a string its characters.\<close>

definition py_iter :: "pyval \<Rightarrow> pyerr + pyval list" where
  "py_iter obj =
     (case obj of
        PList xs \<Rightarrow> Inr xs
      | PDict kvs \<Rightarrow> Inr (map fst kvs)
      | PStr s \<Rightarrow> Inr (map (\<lambda>c. PStr [c]) s)
      | _ \<Rightarrow> Inl TypeError)"

text \<open>\<open>x + n\<close> for an int \<open>n\<close>: \<open>bool\<close> is a subclass of \<open>int\<close>.\<close>

fun py_add_int :: "pyval \<Rightarrow> int \<Rightarrow> pyerr + pyval" where
  "py_add_int (PInt i) n = Inr (PInt (i + n))"
| "py_add_int (PBool b) n = Inr (PInt ((if b then 1 else 0) + n))"
| "py_add_int v n = Inl TypeError"

section \<open>The world the coroutines run in\<close>

datatype cache_op = OpGetCache | OpGet string | OpSet string pyval int

text \<open>
  Every effect is logged with its outcome: a cache operation, a call of a database helper
  bound in the module's globals, an await of a function passed as a parameter
  (\<open>fallback_func\<close>, \<open>fetch_func\<close>), and the creation of a task.
\<close>

datatype event =
    Cache cache_op "pyerr + pyval"
  | Call string "pyval list" "pyerr + pyval"
  | Invoke "pyerr + pyval"
  | CreateTask string int

text \<open>
  A producer (a zero-argument async function) and a database helper act on the database
  state only; they may return a value or raise, and may change the database, so two
  awaits of the same producer need not agree.
\<close>

type_synonym 'db producer = "'db \<Rightarrow> (pyerr + pyval) \<times> 'db"
type_synonym 'db helper = "pyval list \<Rightarrow> 'db \<Rightarrow> (pyerr + pyval) \<times> 'db"

datatype 'db task = RefreshTask string "'db producer" int

text \<open>
  \<open>store\<close> holds the live cache entries with their TTL. \<open>faults\<close> says, from the history
  so far, whether the next cache operation fails and with which error. \<open>tasks\<close> are the
  tasks created and not yet run.
\<close>

record 'db world =
  store :: "string \<rightharpoonup> pyval \<times> int"
  faults :: "event list \<Rightarrow> cache_op \<Rightarrow> pyerr option"
  db :: 'db
  trace :: "event list"
  tasks :: "'db task list"

type_synonym ('a, 'db) io = "'db world \<Rightarrow> (pyerr + 'a) \<times> 'db world"

definition ret :: "'a \<Rightarrow> ('a, 'db) io" where
  "ret x w = (Inr x, w)"

definition raise_io :: "pyerr \<Rightarrow> ('a, 'db) io" where
  "raise_io e w = (Inl e, w)"

definition lift :: "pyerr + 'a \<Rightarrow> ('a, 'db) io" where
  "lift r w = (r, w)"

definition bind_io :: "('a, 'db) io \<Rightarrow> ('a \<Rightarrow> ('b, 'db) io) \<Rightarrow> ('b, 'db) io" where
  "bind_io m f w = (case m w of (Inl e, w') \<Rightarrow> (Inl e, w') | (Inr x, w') \<Rightarrow> f x w')"

text \<open>\<open>try: m except Exception as e: h e\<close>\<close>

definition try_except :: "('a, 'db) io \<Rightarrow> (pyerr \<Rightarrow> ('a, 'db) io) \<Rightarrow> ('a, 'db) io" where
  "try_except m h w = (case m w of (Inl e, w') \<Rightarrow> h e w' | (Inr x, w') \<Rightarrow> (Inr x, w'))"

definition log :: "event \<Rightarrow> 'db world \<Rightarrow> 'db world" where
  "log ev w = w\<lparr>trace := trace w @ [ev]\<rparr>"

definition await_param :: "'db producer \<Rightarrow> (pyval, 'db) io" where
  "await_param f w = (case f (db w) of (r, d') \<Rightarrow> (r, log (Invoke r) (w\<lparr>db := d'\<rparr>)))"

text \<open>Calling a global name: an unbound name raises NameError before anything runs.\<close>

definition call_global :: "string \<Rightarrow> 'db helper option \<Rightarrow> pyval list \<Rightarrow> (pyval, 'db) io" where
  "call_global name binding args w =
     (case binding of
        None \<Rightarrow> (Inl (NameError name), w)
      | Some f \<Rightarrow> (case f args (db w) of (r, d') \<Rightarrow> (r, log (Call name args r) (w\<lparr>db := d'\<rparr>))))"

section \<open>The cache client\<close>

text \<open>
  Modelled from the spec: \<open>database/redis_cache.py\<close> (\<open>get_cache\<close> and the client's
  \<open>get\<close> and \<open>set\<close>) is not among the sources. By the spec's section 4.1, \<open>get\<close>
  returns the value when the key is present and unexpired and \<open>absent\<close> (Python's
  \<open>None\<close>) otherwise, a miss is not an error, and an unreachable store is a distinct
  error; \<open>set\<close> overwrites the entry as a whole with the given TTL, and a set that
  fails writes nothing. Time does not pass inside one call, so \<open>store\<close> is the set of
  unexpired entries. The global key prefix is applied by both operations alike and is
  left out.
\<close>

definition get_cache :: "(unit, 'db) io" where
  "get_cache w =
     (case faults w (trace w) OpGetCache of
        Some e \<Rightarrow> (Inl e, log (Cache OpGetCache (Inl e)) w)
      | None \<Rightarrow> (Inr (), log (Cache OpGetCache (Inr PNone)) w))"

definition cache_get :: "string \<Rightarrow> (pyval, 'db) io" where
  "cache_get key w =
     (case faults w (trace w) (OpGet key) of
        Some e \<Rightarrow> (Inl e, log (Cache (OpGet key) (Inl e)) w)
      | None \<Rightarrow>
          (let v = (case store w key of None \<Rightarrow> PNone | Some (x, t) \<Rightarrow> x)
           in (Inr v, log (Cache (OpGet key) (Inr v)) w)))"

definition cache_set :: "string \<Rightarrow> pyval \<Rightarrow> int \<Rightarrow> (unit, 'db) io" where
  "cache_set key val ttl w =
     (case faults w (trace w) (OpSet key val ttl) of
        Some e \<Rightarrow> (Inl e, log (Cache (OpSet key val ttl) (Inl e)) w)
      | None \<Rightarrow>
          (Inr (), (log (Cache (OpSet key val ttl) (Inr PNone)) w)
                     \<lparr>store := (store w)(key \<mapsto> (val, ttl))\<rparr>))"

section \<open>examples/cache_integration_examples.py\<close>

text \<open>
  The module imports \<open>get_cache\<close> and the three decorators, and nothing else. Its
  functions also read six global names that the file neither defines nor imports: five
  database helpers and \<open>asyncio\<close>. Whoever integrates the examples has to bind them;
  reading an unbound one raises NameError. The bindings are a parameter of the model.
\<close>

record 'db module_globals =
  fetch_user_data_from_db :: "'db helper option"
  fetch_data_from_db :: "'db helper option"
  get_counter_from_db :: "'db helper option"
  update_counter_in_db :: "'db helper option"
  fetch_users_by_group :: "'db helper option"
  asyncio :: bool

text \<open>The module exactly as the file leaves it: none of the six names is bound.\<close>

definition module_as_written :: "'db module_globals" where
  "module_as_written =
     \<lparr> fetch_user_data_from_db = None, fetch_data_from_db = None,
       get_counter_from_db = None, update_counter_in_db = None,
       fetch_users_by_group = None, asyncio = False \<rparr>"

text \<open>\<open>message.from_user.id\<close>: \<open>from_user\<close> is \<open>None\<close> for some updates, and then the
  attribute access raises.\<close>

record message =
  from_user_id :: "int option"

subsection \<open>Example 8: get_user_data_with_conditional_cache\<close>

definition get_user_data_with_conditional_cache ::
    "'db module_globals \<Rightarrow> message \<Rightarrow> (pyval, 'db) io" where
  "get_user_data_with_conditional_cache G msg =
     (case from_user_id msg of
        None \<Rightarrow> raise_io AttributeError
      | Some user_id \<Rightarrow>
          bind_io get_cache (\<lambda>cache.
          bind_io (cache_get (''user_data:'' @ str_int user_id)) (\<lambda>cached_data.
          if truthy cached_data then ret cached_data
          else
            bind_io (call_global ''fetch_user_data_from_db'' (fetch_user_data_from_db G)
                       [PInt user_id]) (\<lambda>user_data.
            bind_io (lift (py_get user_data (PStr ''is_active'') PNone)) (\<lambda>is_active.
            if truthy is_active then
              bind_io (cache_set (''user_data:'' @ str_int user_id) user_data 1800) (\<lambda>_.
              ret user_data)
            else ret user_data)))))"

subsection \<open>Example 9: get_priority_data\<close>

definition ttl_map :: "string \<rightharpoonup> int" where
  "ttl_map = [''high'' \<mapsto> 300, ''normal'' \<mapsto> 1800, ''low'' \<mapsto> 7200]"

definition priority_key :: "string \<Rightarrow> string \<Rightarrow> string" where
  "priority_key data_type priority = ''priority_data:'' @ data_type @ '':'' @ priority"

definition get_priority_data ::
    "'db module_globals \<Rightarrow> string \<Rightarrow> string \<Rightarrow> (pyval, 'db) io" where
  "get_priority_data G data_type priority =
     bind_io get_cache (\<lambda>cache.
     (let ttl = (case ttl_map priority of None \<Rightarrow> 1800 | Some t \<Rightarrow> t);
          cache_key = priority_key data_type priority
      in
     bind_io (cache_get cache_key) (\<lambda>cached_data.
     if truthy cached_data then ret cached_data
     else
       bind_io (call_global ''fetch_data_from_db'' (fetch_data_from_db G)
                  [PStr data_type]) (\<lambda>data.
       bind_io (cache_set cache_key data ttl) (\<lambda>_.
       ret data)))))"

subsection \<open>Example 11: safe_cache_get\<close>

definition safe_cache_get :: "string \<Rightarrow> 'db producer \<Rightarrow> int \<Rightarrow> (pyval, 'db) io" where
  "safe_cache_get key fallback_func ttl =
     try_except
       (bind_io get_cache (\<lambda>cache.
        bind_io (cache_get key) (\<lambda>cached_data.
        if cached_data \<noteq> PNone then ret cached_data
        else
          bind_io (await_param fallback_func) (\<lambda>data.
          bind_io (cache_set key data ttl) (\<lambda>_.
          ret data)))))
       (\<lambda>e. await_param fallback_func)"

subsection \<open>Example 13: increment_user_counter\<close>

definition counter_key :: "int \<Rightarrow> string \<Rightarrow> string" where
  "counter_key user_id counter_type =
     ''user_counter:'' @ str_int user_id @ '':'' @ counter_type"

definition increment_user_counter ::
    "'db module_globals \<Rightarrow> int \<Rightarrow> string \<Rightarrow> (pyval, 'db) io" where
  "increment_user_counter G user_id counter_type =
     bind_io get_cache (\<lambda>cache.
     bind_io (cache_get (counter_key user_id counter_type)) (\<lambda>cached_value.
     bind_io (if cached_value = PNone then
                call_global ''get_counter_from_db'' (get_counter_from_db G)
                  [PInt user_id, PStr counter_type]
              else ret cached_value) (\<lambda>current_value.
     bind_io (lift (py_add_int current_value 1)) (\<lambda>new_value.
     bind_io (cache_set (counter_key user_id counter_type) new_value 7200) (\<lambda>_.
     bind_io (call_global ''update_counter_in_db'' (update_counter_in_db G)
                [PInt user_id, PStr counter_type, new_value]) (\<lambda>_.
     ret new_value))))))"

subsection \<open>Example 14: get_grouped_user_data\<close>

text \<open>
  The body of the \<open>for\<close> loop, run on the users that are left, with \<open>grouped_data\<close> as
  accumulator. \<open>status not in grouped_data\<close> hashes the status and raises TypeError on a
  list or a dict. \<open>grouped_data[status].append(user)\<close> changes the list stored under the
  key in place.
\<close>

fun group_loop :: "pyval list \<Rightarrow> (pyval \<times> pyval) list \<Rightarrow> pyerr + (pyval \<times> pyval) list" where
  "group_loop [] grouped_data = Inr grouped_data"
| "group_loop (user # rest) grouped_data =
     (case py_get user (PStr ''status'') (PStr ''unknown'') of
        Inl e \<Rightarrow> Inl e
      | Inr status \<Rightarrow>
          if \<not> hashable status then Inl TypeError
          else
            (let g1 = (if dict_lookup grouped_data status = None
                       then dict_setitem grouped_data status (PList [])
                       else grouped_data)
             in case dict_lookup g1 status of
                  None \<Rightarrow> Inl KeyError
                | Some (PList members) \<Rightarrow>
                    group_loop rest (dict_setitem g1 status (PList (members @ [user])))
                | Some _ \<Rightarrow> Inl AttributeError))"

definition group_users :: "pyval \<Rightarrow> pyerr + (pyval \<times> pyval) list" where
  "group_users users_data =
     (case py_iter users_data of Inl e \<Rightarrow> Inl e | Inr users \<Rightarrow> group_loop users [])"

definition grouped_key :: "string \<Rightarrow> string" where
  "grouped_key group_id = ''grouped_users:'' @ group_id"

definition get_grouped_user_data :: "'db module_globals \<Rightarrow> string \<Rightarrow> (pyval, 'db) io" where
  "get_grouped_user_data G group_id =
     bind_io get_cache (\<lambda>cache.
     bind_io (cache_get (grouped_key group_id)) (\<lambda>cached_data.
     if truthy cached_data then ret cached_data
     else
       bind_io (call_global ''fetch_users_by_group'' (fetch_users_by_group G)
                  [PStr group_id]) (\<lambda>users_data.
       bind_io (lift (group_users users_data)) (\<lambda>grouped_data.
       bind_io (cache_set (grouped_key group_id) (PDict grouped_data) 1800) (\<lambda>_.
       ret (PDict grouped_data))))))"

subsection \<open>Example 15: get_auto_refresh_data and refresh_cache_background\<close>

definition refresh_cache_background :: "string \<Rightarrow> 'db producer \<Rightarrow> int \<Rightarrow> (pyval, 'db) io" where
  "refresh_cache_background key fetch_func ttl =
     try_except
       (bind_io get_cache (\<lambda>cache.
        bind_io (await_param fetch_func) (\<lambda>new_data.
        bind_io (cache_set key new_data ttl) (\<lambda>_.
        ret PNone))))
       (\<lambda>e. ret PNone)"

text \<open>
  \<open>asyncio.create_task(refresh_cache_background(key, fetch_func, ttl))\<close>: the name
  \<open>asyncio\<close> is looked up first. When it is bound, the coroutine is wrapped in a task
  that the event loop runs later; the caller goes on without awaiting it.
\<close>

definition create_task :: "'db module_globals \<Rightarrow> 'db task \<Rightarrow> (unit, 'db) io" where
  "create_task G t w =
     (if asyncio G then
        (case t of RefreshTask key f ttl \<Rightarrow>
           (Inr (), (log (CreateTask key ttl) w)\<lparr>tasks := tasks w @ [t]\<rparr>))
      else (Inl (NameError ''asyncio''), w))"

text \<open>What the event loop does with a task once it gets to run it.\<close>

fun run_task :: "'db task \<Rightarrow> (pyval, 'db) io" where
  "run_task (RefreshTask key fetch_func ttl) = refresh_cache_background key fetch_func ttl"

definition get_auto_refresh_data ::
    "'db module_globals \<Rightarrow> string \<Rightarrow> 'db producer \<Rightarrow> int \<Rightarrow> (pyval, 'db) io" where
  "get_auto_refresh_data G key fetch_func ttl =
     bind_io get_cache (\<lambda>cache.
     bind_io (cache_get key) (\<lambda>cached_data.
     if truthy cached_data then
       bind_io (create_task G (RefreshTask key fetch_func ttl)) (\<lambda>_.
       ret cached_data)
     else
       bind_io (await_param fetch_func) (\<lambda>data.
       bind_io (cache_set key data ttl) (\<lambda>_.
       ret data))))"

section \<open>Reading the trace\<close>

text \<open>The events a call added to the trace.\<close>

definition new_events :: "'db world \<Rightarrow> 'db world \<Rightarrow> event list" where
  "new_events w w' = drop (length (trace w)) (trace w')"

fun is_invoke :: "event \<Rightarrow> bool" where
  "is_invoke (Invoke r) = True"
| "is_invoke ev = False"

fun is_call_of :: "string \<Rightarrow> event \<Rightarrow> bool" where
  "is_call_of name (Call f args r) = (f = name)"
| "is_call_of name ev = False"

fun is_cache_failure :: "event \<Rightarrow> bool" where
  "is_cache_failure (Cache c (Inl e)) = True"
| "is_cache_failure ev = False"

fun is_set :: "event \<Rightarrow> bool" where
  "is_set (Cache (OpSet k v t) r) = True"
| "is_set ev = False"

text \<open>
  Read-miss-then-write on a key: every \<open>set\<close> in the list is on that key and comes
  after a \<open>get\<close> on that key that returned a falsy value (\<open>None\<close> for an absent key).
  The flag says whether such a \<open>get\<close> has been seen.
\<close>

fun miss_then_write :: "string \<Rightarrow> bool \<Rightarrow> event list \<Rightarrow> bool" where
  "miss_then_write key seen [] = True"
| "miss_then_write key seen (Cache (OpGet k) (Inr v) # evs) =
     miss_then_write key (seen \<or> (k = key \<and> \<not> truthy v)) evs"
| "miss_then_write key seen (Cache (OpSet k v t) r # evs) =
     (k = key \<and> seen \<and> miss_then_write key seen evs)"
| "miss_then_write key seen (ev # evs) = miss_then_write key seen evs"

section \<open>Reading the grouped data\<close>

text \<open>
  The key a user is filed under: the value of its \<open>status\<close> field, \<open>unknown\<close> when
  the field is missing; there is none when the user is not a dict or the status is
  unhashable, the two cases in which the loop raises.
\<close>

definition user_status :: "pyval \<Rightarrow> pyval option" where
  "user_status user =
     (case py_get user (PStr ''status'') (PStr ''unknown'') of
        Inl e \<Rightarrow> None
      | Inr status \<Rightarrow> if hashable status then Some status else None)"

text \<open>The users filed under a key, in the order of the input.\<close>

definition group_members :: "pyval \<Rightarrow> pyval list \<Rightarrow> pyval list" where
  "group_members k users =
     filter (\<lambda>user. case user_status user of None \<Rightarrow> False | Some status \<Rightarrow> key_eq status k) users"

text \<open>The number of users in one group, and the keys of a dict up to key equality.\<close>

fun group_size :: "pyval \<times> pyval \<Rightarrow> nat" where
  "group_size (k, PList members) = length members"
| "group_size (k, v) = 0"

fun norm_keys :: "(pyval \<times> pyval) list \<Rightarrow> pyval list" where
  "norm_keys [] = []"
| "norm_keys ((k, v) # kvs) = norm_key k # norm_keys kvs"

text \<open>The list stored under a key, empty when the key is missing.\<close>

definition members_in :: "(pyval \<times> pyval) list \<Rightarrow> pyval \<Rightarrow> pyval list" where
  "members_in g k = (case dict_lookup g k of Some (PList members) \<Rightarrow> members | _ \<Rightarrow> [])"

section \<open>Concrete inputs\<close>

text \<open>The configuration of a process started with none of the variables set.\<close>

definition default_RedisConfig :: RedisConfig where
  "default_RedisConfig =
     \<lparr> REDIS_HOST = ''localhost'', REDIS_PORT = 6379, REDIS_DB = 0, REDIS_PASSWORD = [],
       REDIS_URL = [], CACHE_TTL = 3600, CACHE_PREFIX = ''bot_cache:'' \<rparr>"


text \<open>
  Store behaviours: always available, never available, and available for reads only.
  Two producers that count their awaits in the database state: one returns the count, the
  other raises. A world with a given store and fault behaviour and nothing else.
\<close>

definition no_faults :: "event list \<Rightarrow> cache_op \<Rightarrow> pyerr option" where
  "no_faults history c = None"

definition outage :: "event list \<Rightarrow> cache_op \<Rightarrow> pyerr option" where
  "outage history c = Some StoreUnavailable"

definition set_fails :: "event list \<Rightarrow> cache_op \<Rightarrow> pyerr option" where
  "set_fails history c = (case c of OpSet k v t \<Rightarrow> Some StoreUnavailable | _ \<Rightarrow> None)"

definition counting :: "nat producer" where
  "counting d = (Inr (PInt (int d)), Suc d)"

definition failing :: "nat producer" where
  "failing d = (Inl (ComputationFailure ''db down''), Suc d)"

text \<open>A producer that returns on its first await and raises on every later one.\<close>

definition once :: "nat producer" where
  "once d = (if d = 0 then Inr (PInt 7) else Inl (ComputationFailure ''gone''), Suc d)"

definition world_of ::
    "(string \<rightharpoonup> pyval \<times> int) \<Rightarrow> (event list \<Rightarrow> cache_op \<Rightarrow> pyerr option) \<Rightarrow> nat world" where
  "world_of st f = \<lparr> store = st, faults = f, db = 0, trace = [], tasks = [] \<rparr>"

text \<open>Bindings for the six global names, as an integrator would supply them.\<close>

definition example_globals :: "nat module_globals" where
  "example_globals =
     \<lparr> fetch_user_data_from_db =
         Some (\<lambda>args d. (Inr (PDict [(PStr ''is_active'', PBool True)]), Suc d)),
       fetch_data_from_db = Some (\<lambda>args d. (Inr (PStr ''row''), Suc d)),
       get_counter_from_db = Some (\<lambda>args d. (Inr (PInt 41), Suc d)),
       update_counter_in_db = Some (\<lambda>args d. (Inr PNone, Suc d)),
       fetch_users_by_group =
         Some (\<lambda>args d.
           (Inr (PList [PDict [(PStr ''status'', PStr ''active'')], PDict []]), Suc d)),
       asyncio = True \<rparr>"

definition empty_group_globals :: "nat module_globals" where
  "empty_group_globals =
     example_globals\<lparr>fetch_users_by_group := Some (\<lambda>args d. (Inr (PList []), Suc d))\<rparr>"

text \<open>Three users: two active ones and one without a status.\<close>

definition example_users :: "pyval list" where
  "example_users =
     [PDict [(PStr ''name'', PStr ''ann''), (PStr ''status'', PStr ''active'')],
      PDict [(PStr ''name'', PStr ''bob'')],
      PDict [(PStr ''name'', PStr ''cy''), (PStr ''status'', PStr ''active'')]]"

section \<open>Properties of the configuration\<close>


lemma py_int_default_port: "py_int ''6379'' = Inr 6379"
  by (simp add: py_int_def strip_def is_space_def parse_unsigned_def is_digit_def digit_val_def)

lemma py_int_default_db: "py_int ''0'' = Inr 0"
  by (simp add: py_int_def strip_def is_space_def parse_unsigned_def is_digit_def digit_val_def)

lemma py_int_default_ttl: "py_int ''3600'' = Inr 3600"
  by (simp add: py_int_def strip_def is_space_def parse_unsigned_def is_digit_def digit_val_def)

lemma str_int_6379: "str_int 6379 = ''6379''"
  by (simp add: str_int_def digit_char_def
      str_nat.simps [of 6379] str_nat.simps [of 637] str_nat.simps [of 63] str_nat.simps [of 6])

lemma str_int_0: "str_int 0 = ''0''"
  by (simp add: str_int_def digit_char_def str_nat.simps [of 0])

text \<open>
  C4: \<open>get_redis_url\<close> returns \<open>REDIS_URL\<close> whenever it is a non-empty string;
  otherwise, with a non-empty password, \<open>redis://:\<close> password \<open>@\<close> host \<open>:\<close> port
  \<open>/\<close> db; and with an empty password, \<open>redis://\<close> host \<open>:\<close> port \<open>/\<close> db. Port
  and db are rendered in decimal.
\<close>

theorem get_redis_url_precedence:
  "(REDIS_URL cls \<noteq> [] \<longrightarrow> get_redis_url cls = REDIS_URL cls) \<and>
   (REDIS_URL cls = [] \<and> REDIS_PASSWORD cls \<noteq> [] \<longrightarrow>
      get_redis_url cls =
        ''redis://:'' @ REDIS_PASSWORD cls @ ''@'' @ REDIS_HOST cls @ '':''
          @ str_int (REDIS_PORT cls) @ ''/'' @ str_int (REDIS_DB cls)) \<and>
   (REDIS_URL cls = [] \<and> REDIS_PASSWORD cls = [] \<longrightarrow>
      get_redis_url cls =
        ''redis://'' @ REDIS_HOST cls @ '':''
          @ str_int (REDIS_PORT cls) @ ''/'' @ str_int (REDIS_DB cls))"
  by (simp add: get_redis_url_def)

theorem get_redis_url_precedence_witness:
  "get_redis_url \<lparr> REDIS_HOST = ''localhost'', REDIS_PORT = 6379, REDIS_DB = 0,
                    REDIS_PASSWORD = ''s3cret'', REDIS_URL = ''redis://cache:6380/2'',
                    CACHE_TTL = 3600, CACHE_PREFIX = ''bot_cache:'' \<rparr>
     = ''redis://cache:6380/2'' \<and>
   get_redis_url \<lparr> REDIS_HOST = ''localhost'', REDIS_PORT = 6379, REDIS_DB = 0,
                    REDIS_PASSWORD = ''s3cret'', REDIS_URL = [],
                    CACHE_TTL = 3600, CACHE_PREFIX = ''bot_cache:'' \<rparr>
     = ''redis://:s3cret@localhost:6379/0'' \<and>
   get_redis_url \<lparr> REDIS_HOST = ''localhost'', REDIS_PORT = 6379, REDIS_DB = 0,
                    REDIS_PASSWORD = [], REDIS_URL = [],
                    CACHE_TTL = 3600, CACHE_PREFIX = ''bot_cache:'' \<rparr>
     = ''redis://localhost:6379/0''"
  using
    get_redis_url_precedence [of "\<lparr> REDIS_HOST = ''localhost'', REDIS_PORT = 6379, REDIS_DB = 0,
                    REDIS_PASSWORD = ''s3cret'', REDIS_URL = ''redis://cache:6380/2'',
                    CACHE_TTL = 3600, CACHE_PREFIX = ''bot_cache:'' \<rparr>"]
    get_redis_url_precedence [of "\<lparr> REDIS_HOST = ''localhost'', REDIS_PORT = 6379, REDIS_DB = 0,
                    REDIS_PASSWORD = ''s3cret'', REDIS_URL = [],
                    CACHE_TTL = 3600, CACHE_PREFIX = ''bot_cache:'' \<rparr>"]
    get_redis_url_precedence [of "\<lparr> REDIS_HOST = ''localhost'', REDIS_PORT = 6379, REDIS_DB = 0,
                    REDIS_PASSWORD = [], REDIS_URL = [],
                    CACHE_TTL = 3600, CACHE_PREFIX = ''bot_cache:'' \<rparr>"]
  by (simp add: str_int_6379 str_int_0)

lemma load_RedisConfig_empty: "load_RedisConfig Map.empty = Inr default_RedisConfig"
  by (simp add: load_RedisConfig_def getenv_def default_RedisConfig_def
      py_int_default_port py_int_default_db py_int_default_ttl)

text \<open>
  C5: a setting whose environment variable is unset takes its default: host
  \<open>localhost\<close>, port 6379, db 0, empty password, TTL 3600 seconds, prefix
  \<open>bot_cache:\<close>; and with the three numeric variables unset the class body does not
  raise. The environment is read by \<open>load_RedisConfig\<close> alone, once, when the class
  body runs; \<open>get_redis_url\<close> has only the stored attributes.
\<close>

theorem RedisConfig_defaults:
  "(env ''REDIS_PORT'' = None \<and> env ''REDIS_DB'' = None \<and> env ''CACHE_TTL'' = None
      \<longrightarrow> (\<exists>cls. load_RedisConfig env = Inr cls)) \<and>
   (\<forall>cls. load_RedisConfig env = Inr cls \<longrightarrow>
      (env ''REDIS_HOST'' = None \<longrightarrow> REDIS_HOST cls = ''localhost'') \<and>
      (env ''REDIS_PORT'' = None \<longrightarrow> REDIS_PORT cls = 6379) \<and>
      (env ''REDIS_DB'' = None \<longrightarrow> REDIS_DB cls = 0) \<and>
      (env ''REDIS_PASSWORD'' = None \<longrightarrow> REDIS_PASSWORD cls = []) \<and>
      (env ''CACHE_TTL'' = None \<longrightarrow> CACHE_TTL cls = 3600) \<and>
      (env ''CACHE_PREFIX'' = None \<longrightarrow> CACHE_PREFIX cls = ''bot_cache:''))"
proof (intro conjI impI allI)
  assume "env ''REDIS_PORT'' = None \<and> env ''REDIS_DB'' = None \<and> env ''CACHE_TTL'' = None"
  then show "\<exists>cls. load_RedisConfig env = Inr cls"
    by (simp add: load_RedisConfig_def getenv_def
        py_int_default_port py_int_default_db py_int_default_ttl)
next
  fix cls
  assume l: "load_RedisConfig env = Inr cls"
  {
    assume "env ''REDIS_HOST'' = None"
    with l show "REDIS_HOST cls = ''localhost''"
      by (auto simp: load_RedisConfig_def getenv_def split: sum.splits)
  next
    assume "env ''REDIS_PORT'' = None"
    with l show "REDIS_PORT cls = 6379"
      by (auto simp: load_RedisConfig_def getenv_def py_int_default_port split: sum.splits)
  next
    assume "env ''REDIS_DB'' = None"
    with l show "REDIS_DB cls = 0"
      by (auto simp: load_RedisConfig_def getenv_def py_int_default_db split: sum.splits)
  next
    assume "env ''REDIS_PASSWORD'' = None"
    with l show "REDIS_PASSWORD cls = []"
      by (auto simp: load_RedisConfig_def getenv_def split: sum.splits)
  next
    assume "env ''CACHE_TTL'' = None"
    with l show "CACHE_TTL cls = 3600"
      by (auto simp: load_RedisConfig_def getenv_def py_int_default_ttl split: sum.splits)
  next
    assume "env ''CACHE_PREFIX'' = None"
    with l show "CACHE_PREFIX cls = ''bot_cache:''"
      by (auto simp: load_RedisConfig_def getenv_def split: sum.splits)
  }
qed

theorem RedisConfig_defaults_witness:
  "load_RedisConfig Map.empty = Inr default_RedisConfig \<and>
   REDIS_HOST default_RedisConfig = ''localhost'' \<and>
   REDIS_PORT default_RedisConfig = 6379 \<and>
   REDIS_DB default_RedisConfig = 0 \<and>
   REDIS_PASSWORD default_RedisConfig = [] \<and>
   CACHE_TTL default_RedisConfig = 3600 \<and>
   CACHE_PREFIX default_RedisConfig = ''bot_cache:''"
  using RedisConfig_defaults [of Map.empty] load_RedisConfig_empty
  by simp

section \<open>Properties of the caching examples\<close>

lemmas io_defs =
  ret_def raise_io_def lift_def bind_io_def try_except_def log_def await_param_def
  call_global_def get_cache_def cache_get_def cache_set_def create_task_def new_events_def
  Let_def

lemmas input_defs =
  no_faults_def outage_def set_fails_def counting_def failing_def once_def world_of_def
  example_globals_def empty_group_globals_def

text \<open>
  C2: a failing cache operation inside \<open>safe_cache_get\<close> should never make the call
  fail. Evaluated with a fallback that returns on its first await and raises afterwards:
  on a working store the call returns the fallback's value; when \<open>set\<close> raises, the
  handler awaits the fallback a second time and the call raises, so the failure of the
  store alone has turned a returning call into a failing one.
\<close>

theorem safe_cache_get_outage_fails_call:
  "fst (safe_cache_get ''k'' once 60 (world_of Map.empty no_faults)) = Inr (PInt 7) \<and>
   fst (safe_cache_get ''k'' once 60 (world_of Map.empty set_fails))
     = Inl (ComputationFailure ''gone'') \<and>
   new_events (world_of Map.empty set_fails)
       (snd (safe_cache_get ''k'' once 60 (world_of Map.empty set_fails)))
     = [Cache OpGetCache (Inr PNone), Cache (OpGet ''k'') (Inr PNone), Invoke (Inr (PInt 7)),
        Cache (OpSet ''k'' (PInt 7) 60) (Inl StoreUnavailable),
        Invoke (Inl (ComputationFailure ''gone''))]"
  by (simp add: safe_cache_get_def io_defs input_defs)

text \<open>
  What does hold: if a cache operation inside \<open>safe_cache_get\<close> raises, the call ends
  by awaiting \<open>fallback_func\<close> in the handler and its outcome is the outcome of that
  await; with a fallback that returns in every state the call returns a value.
\<close>

lemma safe_cache_get_store_failure:
  assumes "safe_cache_get key fallback_func ttl w = (r, w')"
    and "\<exists>ev \<in> set (new_events w w'). is_cache_failure ev"
  shows "(\<exists>w1. await_param fallback_func w1 = (r, w')) \<and>
         ((\<forall>d. \<exists>v. fst (fallback_func d) = Inr v) \<longrightarrow> (\<exists>v. r = Inr v))"
proof -
  define body where "body =
    bind_io get_cache (\<lambda>cache.
        bind_io (cache_get key) (\<lambda>cached_data.
        if cached_data \<noteq> PNone then ret cached_data
        else
          bind_io (await_param fallback_func) (\<lambda>data.
          bind_io (cache_set key data ttl) (\<lambda>_.
          ret data))))"
  have sc: "safe_cache_get key fallback_func ttl = try_except body (\<lambda>e. await_param fallback_func)"
    by (simp add: safe_cache_get_def body_def)
  obtain b w1 where bw: "body w = (b, w1)"
    by (cases "body w")
  have ok: "\<forall>ev \<in> set (new_events w w1). \<not> is_cache_failure ev" if "b = Inr x" for x
    using bw that unfolding body_def io_defs
    by (auto split: option.splits prod.splits sum.splits if_splits)
  show ?thesis
  proof (cases b)
    case (Inl e)
    with bw assms(1) have aw: "await_param fallback_func w1 = (r, w')"
      by (simp add: sc try_except_def)
    then have "\<exists>w1. await_param fallback_func w1 = (r, w')" by blast
    moreover have "(\<forall>d. \<exists>v. fst (fallback_func d) = Inr v) \<longrightarrow> (\<exists>v. r = Inr v)"
      using aw by (auto simp: await_param_def split: prod.splits) (metis fst_conv)
    ultimately show ?thesis by blast
  next
    case (Inr x)
    with bw assms(1) have "w' = w1"
      by (simp add: sc try_except_def)
    with ok [OF Inr] assms(2) show ?thesis by blast
  qed
qed

lemma safe_cache_get_store_failure_example:
  "(\<exists>ev \<in> set (new_events (world_of Map.empty outage)
        (snd (safe_cache_get ''k'' counting 60 (world_of Map.empty outage)))). is_cache_failure ev) \<and>
   (\<forall>d. \<exists>v. fst (counting d) = Inr v) \<and>
   fst (safe_cache_get ''k'' counting 60 (world_of Map.empty outage)) = Inr (PInt 0) \<and>
   (\<exists>w1. await_param counting w1 =
      (Inr (PInt 0), snd (safe_cache_get ''k'' counting 60 (world_of Map.empty outage))))"
proof -
  have ev: "\<exists>ev \<in> set (new_events (world_of Map.empty outage)
        (snd (safe_cache_get ''k'' counting 60 (world_of Map.empty outage)))). is_cache_failure ev"
    by (simp add: safe_cache_get_def io_defs input_defs)
  have tot: "\<forall>d. \<exists>v. fst (counting d) = Inr v"
    by (simp add: counting_def)
  have val: "fst (safe_cache_get ''k'' counting 60 (world_of Map.empty outage)) = Inr (PInt 0)"
    by (simp add: safe_cache_get_def io_defs input_defs)
  from safe_cache_get_store_failure [OF surjective_pairing ev] ev tot val
  show ?thesis by simp
qed

text \<open>
  C3: on an absent key the fallback should be awaited exactly once, also when the
  following \<open>set\<close> raises. Evaluated on an empty cache whose \<open>set\<close> fails: the
  fallback is awaited twice (once in the \<open>try\<close> block, once more in the handler), and
  the value returned is that of the second await, not of the first.
\<close>

theorem safe_cache_get_double_invocation:
  "fst (safe_cache_get ''k'' counting 60 (world_of Map.empty set_fails)) = Inr (PInt 1) \<and>
   new_events (world_of Map.empty set_fails)
       (snd (safe_cache_get ''k'' counting 60 (world_of Map.empty set_fails)))
     = [Cache OpGetCache (Inr PNone), Cache (OpGet ''k'') (Inr PNone), Invoke (Inr (PInt 0)),
        Cache (OpSet ''k'' (PInt 0) 60) (Inl StoreUnavailable), Invoke (Inr (PInt 1))]"
  by (simp add: safe_cache_get_def io_defs input_defs)


text \<open>
  C6: \<open>refresh_cache_background\<close> never raises: it returns \<open>None\<close> whatever
  \<open>get_cache\<close>, the producer and \<open>set\<close> do. If the producer raises, \<open>set\<close> is not
  called and the cache is as it was before.
\<close>

theorem refresh_cache_background_contained:
  assumes "refresh_cache_background key fetch_func ttl w = (r, w')"
  shows "r = Inr PNone \<and>
         ((\<exists>e. fst (fetch_func (db w)) = Inl e) \<longrightarrow>
            store w' = store w \<and> (\<forall>ev \<in> set (new_events w w'). \<not> is_set ev))"
  using assms unfolding refresh_cache_background_def io_defs
  by (auto split: option.splits prod.splits sum.splits if_splits)

theorem refresh_cache_background_contained_witness:
  "(\<exists>e. fst (failing (db (world_of [''k'' \<mapsto> (PInt 5, 60)] no_faults))) = Inl e) \<and>
   fst (refresh_cache_background ''k'' failing 60 (world_of [''k'' \<mapsto> (PInt 5, 60)] no_faults))
     = Inr PNone \<and>
   store (snd (refresh_cache_background ''k'' failing 60
                 (world_of [''k'' \<mapsto> (PInt 5, 60)] no_faults))) ''k'' = Some (PInt 5, 60)"
proof -
  have f: "\<exists>e. fst (failing (db (world_of [''k'' \<mapsto> (PInt 5, 60)] no_faults))) = Inl e"
    by (simp add: failing_def)
  from refresh_cache_background_contained [OF surjective_pairing,
      of "''k''" failing 60 "world_of [''k'' \<mapsto> (PInt 5, 60)] no_faults"] f
  show ?thesis by (simp add: world_of_def)
qed

text \<open>
  C8: in one call of \<open>get_priority_data\<close>, \<open>get_grouped_user_data\<close> or
  \<open>safe_cache_get\<close>, every \<open>set\<close> is on the computed key and comes after a \<open>get\<close>
  on that key that returned an absent or falsy value.
\<close>

theorem read_miss_then_write:
  "(get_priority_data G data_type priority w = (r, w') \<longrightarrow>
      miss_then_write (priority_key data_type priority) False (new_events w w')) \<and>
   (get_grouped_user_data G group_id w = (r, w') \<longrightarrow>
      miss_then_write (grouped_key group_id) False (new_events w w')) \<and>
   (safe_cache_get key fallback_func ttl w = (r, w') \<longrightarrow>
      miss_then_write key False (new_events w w'))"
proof (intro conjI impI)
  assume "get_priority_data G data_type priority w = (r, w')"
  then show "miss_then_write (priority_key data_type priority) False (new_events w w')"
    unfolding get_priority_data_def io_defs Let_def
    by (auto split: option.splits prod.splits sum.splits if_splits)
next
  assume "get_grouped_user_data G group_id w = (r, w')"
  then show "miss_then_write (grouped_key group_id) False (new_events w w')"
    unfolding get_grouped_user_data_def io_defs Let_def
    by (auto split: option.splits prod.splits sum.splits if_splits)
next
  assume "safe_cache_get key fallback_func ttl w = (r, w')"
  then show "miss_then_write key False (new_events w w')"
    unfolding safe_cache_get_def io_defs Let_def
    by (auto split: option.splits prod.splits sum.splits if_splits)
qed


lemma str_int_7: "str_int 7 = ''7''"
  by (simp add: str_int_def digit_char_def str_nat.simps [of 7])

theorem read_miss_then_write_witness:
  "miss_then_write (priority_key ''stats'' ''high'') False
     (new_events (world_of Map.empty no_faults)
        (snd (get_priority_data example_globals ''stats'' ''high'' (world_of Map.empty no_faults)))) \<and>
   (\<exists>ev \<in> set (new_events (world_of Map.empty no_faults)
        (snd (get_priority_data example_globals ''stats'' ''high'' (world_of Map.empty no_faults)))).
      is_set ev) \<and>
   miss_then_write (grouped_key ''g'') False
     (new_events (world_of Map.empty no_faults)
        (snd (get_grouped_user_data example_globals ''g'' (world_of Map.empty no_faults)))) \<and>
   (\<exists>ev \<in> set (new_events (world_of Map.empty no_faults)
        (snd (get_grouped_user_data example_globals ''g'' (world_of Map.empty no_faults)))).
      is_set ev) \<and>
   miss_then_write ''k'' False
     (new_events (world_of Map.empty no_faults)
        (snd (safe_cache_get ''k'' counting 60 (world_of Map.empty no_faults)))) \<and>
   (\<exists>ev \<in> set (new_events (world_of Map.empty no_faults)
        (snd (safe_cache_get ''k'' counting 60 (world_of Map.empty no_faults)))).
      is_set ev)"
proof -
  have s1: "\<exists>ev \<in> set (new_events (world_of Map.empty no_faults)
        (snd (get_priority_data example_globals ''stats'' ''high'' (world_of Map.empty no_faults)))).
      is_set ev"
    by (simp add: get_priority_data_def ttl_map_def priority_key_def Let_def io_defs input_defs)
  have s2: "\<exists>ev \<in> set (new_events (world_of Map.empty no_faults)
        (snd (get_grouped_user_data example_globals ''g'' (world_of Map.empty no_faults)))).
      is_set ev"
    by (simp add: get_grouped_user_data_def grouped_key_def group_users_def py_iter_def
        py_get_def key_eq_def io_defs input_defs)
  have s3: "\<exists>ev \<in> set (new_events (world_of Map.empty no_faults)
        (snd (safe_cache_get ''k'' counting 60 (world_of Map.empty no_faults)))).
      is_set ev"
    by (simp add: safe_cache_get_def io_defs input_defs)
  from s1 s2 s3
    read_miss_then_write [where G = example_globals and data_type = "''stats''"
      and priority = "''high''" and w = "world_of Map.empty no_faults"
      and r = "fst (get_priority_data example_globals ''stats'' ''high''
                      (world_of Map.empty no_faults))"
      and w' = "snd (get_priority_data example_globals ''stats'' ''high''
                       (world_of Map.empty no_faults))"]
    read_miss_then_write [where G = example_globals and group_id = "''g''"
      and w = "world_of Map.empty no_faults"
      and r = "fst (get_grouped_user_data example_globals ''g'' (world_of Map.empty no_faults))"
      and w' = "snd (get_grouped_user_data example_globals ''g'' (world_of Map.empty no_faults))"]
    read_miss_then_write [where key = "''k''" and fallback_func = counting and ttl = 60
      and w = "world_of Map.empty no_faults"
      and r = "fst (safe_cache_get ''k'' counting 60 (world_of Map.empty no_faults))"
      and w' = "snd (safe_cache_get ''k'' counting 60 (world_of Map.empty no_faults))"]
  show ?thesis by simp
qed

lemma bind_io_success:
  assumes "bind_io m f w = (Inr v, w')"
  obtains x w1 where "m w = (Inr x, w1)" and "f x w1 = (Inr v, w')"
  using assms by (auto simp: bind_io_def split: prod.splits sum.splits)

lemma get_cache_success:
  "get_cache w = (Inr x, w1) \<Longrightarrow> w1 = log (Cache OpGetCache (Inr PNone)) w"
  by (auto simp: get_cache_def split: option.splits)

lemma cache_get_success:
  "cache_get key w = (Inr v, w1) \<Longrightarrow>
     v = (case store w key of None \<Rightarrow> PNone | Some (x, t) \<Rightarrow> x) \<and>
     w1 = log (Cache (OpGet key) (Inr v)) w"
  by (auto simp: cache_get_def Let_def split: option.splits)

lemma cache_set_success:
  "cache_set key val ttl w = (Inr x, w1) \<Longrightarrow>
     w1 = (log (Cache (OpSet key val ttl) (Inr PNone)) w)\<lparr>store := (store w)(key \<mapsto> (val, ttl))\<rparr>"
  by (auto simp: cache_set_def split: option.splits)

lemma call_global_success:
  assumes "call_global name binding args w = (Inr v, w1)"
  obtains f d' where "binding = Some f" and "f args (db w) = (Inr v, d')"
    and "w1 = log (Call name args (Inr v)) (w\<lparr>db := d'\<rparr>)"
  using assms by (auto simp: call_global_def split: option.splits prod.splits)

lemma py_add_int_success:
  "py_add_int cur n = Inr v \<Longrightarrow>
     (\<exists>i. cur = PInt i \<and> v = PInt (i + n)) \<or>
     (\<exists>b. cur = PBool b \<and> v = PInt ((if b then 1 else 0) + n))"
  by (cases cur) auto

text \<open>
  C9: a call of \<open>increment_user_counter\<close> that returns has taken the prior value from
  the cache when \<open>get\<close> gave one (not \<open>None\<close>) and from \<open>get_counter_from_db\<close>
  otherwise, has added exactly 1, and has written that one new value to the cache entry
  (TTL 7200), passed it to \<open>update_counter_in_db\<close>, and returned it.
\<close>

theorem increment_user_counter_consistent:
  assumes "increment_user_counter G user_id counter_type w = (Inr v, w')"
  shows "let key = counter_key user_id counter_type;
             cached = (case store w key of None \<Rightarrow> PNone | Some (x, t) \<Rightarrow> x)
         in \<exists>cur.
              (if cached \<noteq> PNone then cur = cached
               else \<exists>f. get_counter_from_db G = Some f \<and>
                        fst (f [PInt user_id, PStr counter_type] (db w)) = Inr cur) \<and>
              py_add_int cur 1 = Inr v \<and>
              ((\<exists>i. cur = PInt i \<and> v = PInt (i + 1)) \<or>
               (\<exists>b. cur = PBool b \<and> v = PInt ((if b then 1 else 0) + 1))) \<and>
              store w' key = Some (v, 7200) \<and>
              Cache (OpSet key v 7200) (Inr PNone) \<in> set (new_events w w') \<and>
              (\<exists>res. Call ''update_counter_in_db'' [PInt user_id, PStr counter_type, v] (Inr res)
                       \<in> set (new_events w w'))"
proof -
  define key where "key = counter_key user_id counter_type"
  define cached where "cached = (case store w key of None \<Rightarrow> PNone | Some (x, t) \<Rightarrow> x)"
  note run = assms [unfolded increment_user_counter_def, folded key_def]
  from run obtain c w1 where 1: "get_cache w = (Inr c, w1)"
    and r1: "bind_io (cache_get key) (\<lambda>cached_value.
     bind_io (if cached_value = PNone then
                call_global ''get_counter_from_db'' (get_counter_from_db G)
                  [PInt user_id, PStr counter_type]
              else ret cached_value) (\<lambda>current_value.
     bind_io (lift (py_add_int current_value 1)) (\<lambda>new_value.
     bind_io (cache_set key new_value 7200) (\<lambda>_.
     bind_io (call_global ''update_counter_in_db'' (update_counter_in_db G)
                [PInt user_id, PStr counter_type, new_value]) (\<lambda>_.
     ret new_value))))) w1 = (Inr v, w')"
    by (rule bind_io_success)
  from r1 obtain cv w2 where 2: "cache_get key w1 = (Inr cv, w2)"
    and r2: "bind_io (if cv = PNone then
                call_global ''get_counter_from_db'' (get_counter_from_db G)
                  [PInt user_id, PStr counter_type]
              else ret cv) (\<lambda>current_value.
     bind_io (lift (py_add_int current_value 1)) (\<lambda>new_value.
     bind_io (cache_set key new_value 7200) (\<lambda>_.
     bind_io (call_global ''update_counter_in_db'' (update_counter_in_db G)
                [PInt user_id, PStr counter_type, new_value]) (\<lambda>_.
     ret new_value)))) w2 = (Inr v, w')"
    by (rule bind_io_success)
  from r2 obtain cur w3 where 3: "(if cv = PNone then
                call_global ''get_counter_from_db'' (get_counter_from_db G)
                  [PInt user_id, PStr counter_type]
              else ret cv) w2 = (Inr cur, w3)"
    and r3: "bind_io (lift (py_add_int cur 1)) (\<lambda>new_value.
     bind_io (cache_set key new_value 7200) (\<lambda>_.
     bind_io (call_global ''update_counter_in_db'' (update_counter_in_db G)
                [PInt user_id, PStr counter_type, new_value]) (\<lambda>_.
     ret new_value))) w3 = (Inr v, w')"
    by (rule bind_io_success)
  from r3 obtain nv w4 where 4: "lift (py_add_int cur 1) w3 = (Inr nv, w4)"
    and r4: "bind_io (cache_set key nv 7200) (\<lambda>_.
     bind_io (call_global ''update_counter_in_db'' (update_counter_in_db G)
                [PInt user_id, PStr counter_type, nv]) (\<lambda>_.
     ret nv)) w4 = (Inr v, w')"
    by (rule bind_io_success)
  from r4 obtain u w5 where 5: "cache_set key nv 7200 w4 = (Inr u, w5)"
    and r5: "bind_io (call_global ''update_counter_in_db'' (update_counter_in_db G)
                [PInt user_id, PStr counter_type, nv]) (\<lambda>_. ret nv) w5 = (Inr v, w')"
    by (rule bind_io_success)
  from r5 obtain res w6 where 6: "call_global ''update_counter_in_db'' (update_counter_in_db G)
                [PInt user_id, PStr counter_type, nv] w5 = (Inr res, w6)"
    and r6: "ret nv w6 = (Inr v, w')"
    by (rule bind_io_success)
  from r6 have v: "nv = v" and w': "w' = w6"
    by (simp_all add: ret_def)
  from 4 have add: "py_add_int cur 1 = Inr v" and w4: "w4 = w3"
    by (simp_all add: lift_def v)
  from 1 have w1: "w1 = log (Cache OpGetCache (Inr PNone)) w"
    by (rule get_cache_success)
  from 2 have cv: "cv = cached" and w2: "w2 = log (Cache (OpGet key) (Inr cv)) w1"
    using cache_get_success [OF 2] by (simp_all add: cached_def w1 log_def)
  have t3: "\<exists>t. trace w3 = trace w @ t" and s3: "store w3 = store w"
    and src: "if cached \<noteq> PNone then cur = cached
              else \<exists>f. get_counter_from_db G = Some f \<and>
                       fst (f [PInt user_id, PStr counter_type] (db w)) = Inr cur"
  proof -
    show "\<exists>t. trace w3 = trace w @ t"
      using 3 by (cases "cv = PNone")
        (auto simp: w2 w1 log_def ret_def elim!: call_global_success)
    show "store w3 = store w"
      using 3 by (cases "cv = PNone")
        (auto simp: w2 w1 log_def ret_def elim!: call_global_success)
    show "if cached \<noteq> PNone then cur = cached
          else \<exists>f. get_counter_from_db G = Some f \<and>
                   fst (f [PInt user_id, PStr counter_type] (db w)) = Inr cur"
      using 3 by (cases "cv = PNone")
        (auto simp: cv [symmetric] w2 w1 log_def ret_def elim!: call_global_success)
  qed
  from t3 obtain t where t: "trace w3 = trace w @ t" by blast
  from 5 have w5: "w5 = (log (Cache (OpSet key v 7200) (Inr PNone)) w4)
                          \<lparr>store := (store w4)(key \<mapsto> (v, 7200))\<rparr>"
    using cache_set_success [OF 5] by (simp add: v)
  from 6 obtain f d' where w6: "w6 = log (Call ''update_counter_in_db''
                [PInt user_id, PStr counter_type, v] (Inr res)) (w5\<lparr>db := d'\<rparr>)"
    by (rule call_global_success) (simp add: v)
  have tr: "trace w' = trace w @ t @ [Cache (OpSet key v 7200) (Inr PNone),
              Call ''update_counter_in_db'' [PInt user_id, PStr counter_type, v] (Inr res)]"
    by (simp add: w' w6 w5 w4 log_def t)
  have st: "store w' key = Some (v, 7200)"
    by (simp add: w' w6 w5 log_def)
  have ne: "new_events w w' = t @ [Cache (OpSet key v 7200) (Inr PNone),
              Call ''update_counter_in_db'' [PInt user_id, PStr counter_type, v] (Inr res)]"
    by (simp add: new_events_def tr)
  have "\<exists>cur.
          (if cached \<noteq> PNone then cur = cached
           else \<exists>f. get_counter_from_db G = Some f \<and>
                    fst (f [PInt user_id, PStr counter_type] (db w)) = Inr cur) \<and>
          py_add_int cur 1 = Inr v \<and>
          ((\<exists>i. cur = PInt i \<and> v = PInt (i + 1)) \<or>
           (\<exists>b. cur = PBool b \<and> v = PInt ((if b then 1 else 0) + 1))) \<and>
          store w' key = Some (v, 7200) \<and>
          Cache (OpSet key v 7200) (Inr PNone) \<in> set (new_events w w') \<and>
          (\<exists>res. Call ''update_counter_in_db'' [PInt user_id, PStr counter_type, v] (Inr res)
                   \<in> set (new_events w w'))"
    using src add py_add_int_success [OF add] st
    by (intro exI [of _ cur]) (auto simp: ne)
  then show ?thesis
    unfolding Let_def cached_def key_def .
qed

lemma counter_key_7: "counter_key 7 ''clicks'' = ''user_counter:7:clicks''"
  by (simp add: counter_key_def str_int_7)

theorem increment_user_counter_consistent_witness:
  "increment_user_counter example_globals 7 ''clicks''
       (world_of [''user_counter:7:clicks'' \<mapsto> (PInt 41, 7200)] no_faults)
     = (Inr (PInt 42),
        snd (increment_user_counter example_globals 7 ''clicks''
               (world_of [''user_counter:7:clicks'' \<mapsto> (PInt 41, 7200)] no_faults))) \<and>
   store (snd (increment_user_counter example_globals 7 ''clicks''
                 (world_of [''user_counter:7:clicks'' \<mapsto> (PInt 41, 7200)] no_faults)))
       ''user_counter:7:clicks'' = Some (PInt 42, 7200) \<and>
   (\<exists>res. Call ''update_counter_in_db'' [PInt 7, PStr ''clicks'', PInt 42] (Inr res)
      \<in> set (new_events (world_of [''user_counter:7:clicks'' \<mapsto> (PInt 41, 7200)] no_faults)
           (snd (increment_user_counter example_globals 7 ''clicks''
               (world_of [''user_counter:7:clicks'' \<mapsto> (PInt 41, 7200)] no_faults)))))"
proof -
  have run: "increment_user_counter example_globals 7 ''clicks''
       (world_of [''user_counter:7:clicks'' \<mapsto> (PInt 41, 7200)] no_faults)
     = (Inr (PInt 42),
        snd (increment_user_counter example_globals 7 ''clicks''
               (world_of [''user_counter:7:clicks'' \<mapsto> (PInt 41, 7200)] no_faults)))"
    by (simp add: increment_user_counter_def counter_key_7 io_defs input_defs)
  have rest: "store (snd (increment_user_counter example_globals 7 ''clicks''
                 (world_of [''user_counter:7:clicks'' \<mapsto> (PInt 41, 7200)] no_faults)))
       ''user_counter:7:clicks'' = Some (PInt 42, 7200) \<and>
   (\<exists>res. Call ''update_counter_in_db'' [PInt 7, PStr ''clicks'', PInt 42] (Inr res)
      \<in> set (new_events (world_of [''user_counter:7:clicks'' \<mapsto> (PInt 41, 7200)] no_faults)
           (snd (increment_user_counter example_globals 7 ''clicks''
               (world_of [''user_counter:7:clicks'' \<mapsto> (PInt 41, 7200)] no_faults)))))"
    using increment_user_counter_consistent [OF run]
    by (auto simp: Let_def counter_key_7)
  show ?thesis
    by (rule conjI [OF run rest])
qed

text \<open>
  C1: a key whose entry is present should be served from the cache without a fetch, also
  when the cached value is falsy. Evaluated: with an empty list cached under the group's
  key, \<open>get_grouped_user_data\<close> calls \<open>fetch_users_by_group\<close> and returns the
  regrouped data, not the cached value; with an empty dict cached under the user's key,
  \<open>get_user_data_with_conditional_cache\<close> calls \<open>fetch_user_data_from_db\<close>. And
  \<open>get_grouped_user_data\<close> itself caches \<open>{}\<close> for a group without users, so a
  second call with the same argument fetches again.
\<close>

theorem falsy_cached_value_refetched:
  "fst (get_grouped_user_data example_globals ''g''
          (world_of [''grouped_users:g'' \<mapsto> (PList [], 1800)] no_faults))
     = Inr (PDict [(PStr ''active'', PList [PDict [(PStr ''status'', PStr ''active'')]]),
                   (PStr ''unknown'', PList [PDict []])]) \<and>
   new_events (world_of [''grouped_users:g'' \<mapsto> (PList [], 1800)] no_faults)
       (snd (get_grouped_user_data example_globals ''g''
          (world_of [''grouped_users:g'' \<mapsto> (PList [], 1800)] no_faults)))
     = [Cache OpGetCache (Inr PNone),
        Cache (OpGet ''grouped_users:g'') (Inr (PList [])),
        Call ''fetch_users_by_group'' [PStr ''g'']
          (Inr (PList [PDict [(PStr ''status'', PStr ''active'')], PDict []])),
        Cache (OpSet ''grouped_users:g''
                 (PDict [(PStr ''active'', PList [PDict [(PStr ''status'', PStr ''active'')]]),
                         (PStr ''unknown'', PList [PDict []])]) 1800) (Inr PNone)] \<and>
   fst (get_user_data_with_conditional_cache example_globals \<lparr>from_user_id = Some 7\<rparr>
          (world_of [''user_data:7'' \<mapsto> (PDict [], 1800)] no_faults))
     = Inr (PDict [(PStr ''is_active'', PBool True)]) \<and>
   new_events (world_of [''user_data:7'' \<mapsto> (PDict [], 1800)] no_faults)
       (snd (get_user_data_with_conditional_cache example_globals \<lparr>from_user_id = Some 7\<rparr>
          (world_of [''user_data:7'' \<mapsto> (PDict [], 1800)] no_faults)))
     = [Cache OpGetCache (Inr PNone),
        Cache (OpGet ''user_data:7'') (Inr (PDict [])),
        Call ''fetch_user_data_from_db'' [PInt 7] (Inr (PDict [(PStr ''is_active'', PBool True)])),
        Cache (OpSet ''user_data:7'' (PDict [(PStr ''is_active'', PBool True)]) 1800)
          (Inr PNone)] \<and>
   store (snd (get_grouped_user_data empty_group_globals ''g'' (world_of Map.empty no_faults)))
       ''grouped_users:g'' = Some (PDict [], 1800) \<and>
   filter (is_call_of ''fetch_users_by_group'')
       (trace (snd (get_grouped_user_data empty_group_globals ''g''
                 (snd (get_grouped_user_data empty_group_globals ''g''
                         (world_of Map.empty no_faults))))))
     = [Call ''fetch_users_by_group'' [PStr ''g''] (Inr (PList [])),
        Call ''fetch_users_by_group'' [PStr ''g''] (Inr (PList []))]"
  by (simp add: get_grouped_user_data_def get_user_data_with_conditional_cache_def
      grouped_key_def group_users_def py_iter_def py_get_def key_eq_def str_int_7
      io_defs input_defs)

text \<open>
  C7: a call of \<open>get_auto_refresh_data\<close> on a present key should return the cached
  value without raising, after scheduling the refresh. Evaluated: with the module as the
  file leaves it, a truthy cached value leads to line 291, where the unbound name
  \<open>asyncio\<close> raises NameError. And with every name bound, a present but falsy cached
  value (an empty list) is taken for a miss: no task is created, the producer is awaited
  in the caller, its error propagates, and when it returns, its value is returned in
  place of the cached one.
\<close>

theorem get_auto_refresh_data_hit_raises:
  "fst (get_auto_refresh_data (module_as_written :: nat module_globals) ''k'' counting 60
          (world_of [''k'' \<mapsto> (PInt 5, 60)] no_faults))
     = Inl (NameError ''asyncio'') \<and>
   fst (get_auto_refresh_data example_globals ''k'' failing 60
          (world_of [''k'' \<mapsto> (PList [], 60)] no_faults))
     = Inl (ComputationFailure ''db down'') \<and>
   tasks (snd (get_auto_refresh_data example_globals ''k'' failing 60
          (world_of [''k'' \<mapsto> (PList [], 60)] no_faults))) = [] \<and>
   fst (get_auto_refresh_data example_globals ''k'' counting 60
          (world_of [''k'' \<mapsto> (PList [], 60)] no_faults))
     = Inr (PInt 0) \<and>
   tasks (snd (get_auto_refresh_data example_globals ''k'' counting 60
          (world_of [''k'' \<mapsto> (PList [], 60)] no_faults))) = []"
  by (simp add: get_auto_refresh_data_def module_as_written_def io_defs input_defs)

subsection \<open>The paths that work\<close>

text \<open>
  A present entry with a truthy value is served from the cache by both memoizing read
  paths: the value is returned and the call does nothing but the two cache operations.
\<close>

lemma truthy_hit_served_from_cache:
  assumes "faults w (trace w) OpGetCache = None"
    and "faults w (trace w @ [Cache OpGetCache (Inr PNone)]) (OpGet key) = None"
    and "store w key = Some (v, t)"
    and "truthy v"
  shows "key = grouped_key group_id \<Longrightarrow>
           fst (get_grouped_user_data G group_id w) = Inr v \<and>
           new_events w (snd (get_grouped_user_data G group_id w)) =
             [Cache OpGetCache (Inr PNone), Cache (OpGet key) (Inr v)]"
    and "key = ''user_data:'' @ str_int user_id \<Longrightarrow>
           fst (get_user_data_with_conditional_cache G \<lparr>from_user_id = Some user_id\<rparr> w) = Inr v \<and>
           new_events w (snd (get_user_data_with_conditional_cache G
                                \<lparr>from_user_id = Some user_id\<rparr> w)) =
             [Cache OpGetCache (Inr PNone), Cache (OpGet key) (Inr v)]"
  using assms
  by (simp_all add: get_grouped_user_data_def get_user_data_with_conditional_cache_def io_defs)

text \<open>
  On an absent key, with a store that works and a fallback that returns,
  \<open>safe_cache_get\<close> awaits the fallback once, caches its value and returns it.
\<close>

lemma safe_cache_get_miss_once:
  assumes "faults w (trace w) OpGetCache = None"
    and "faults w (trace w @ [Cache OpGetCache (Inr PNone)]) (OpGet key) = None"
    and "store w key = None"
    and "fallback_func (db w) = (Inr v, d')"
    and "faults w (trace w @ [Cache OpGetCache (Inr PNone), Cache (OpGet key) (Inr PNone),
                              Invoke (Inr v)]) (OpSet key v ttl) = None"
  shows "fst (safe_cache_get key fallback_func ttl w) = Inr v"
    and "new_events w (snd (safe_cache_get key fallback_func ttl w)) =
           [Cache OpGetCache (Inr PNone), Cache (OpGet key) (Inr PNone), Invoke (Inr v),
            Cache (OpSet key v ttl) (Inr PNone)]"
    and "store (snd (safe_cache_get key fallback_func ttl w)) key = Some (v, ttl)"
  using assms
  by (simp_all add: safe_cache_get_def io_defs)

text \<open>
  With \<open>asyncio\<close> bound and a store that works, a present entry with a truthy value is
  returned by \<open>get_auto_refresh_data\<close> after the refresh task has been created; the
  task is not run inside the call, which leaves the cache and the database as they were.
\<close>

lemma get_auto_refresh_data_truthy_hit:
  assumes "asyncio G"
    and "faults w (trace w) OpGetCache = None"
    and "faults w (trace w @ [Cache OpGetCache (Inr PNone)]) (OpGet key) = None"
    and "store w key = Some (v, t)"
    and "truthy v"
  shows "fst (get_auto_refresh_data G key fetch_func ttl w) = Inr v"
    and "tasks (snd (get_auto_refresh_data G key fetch_func ttl w)) =
           tasks w @ [RefreshTask key fetch_func ttl]"
    and "store (snd (get_auto_refresh_data G key fetch_func ttl w)) = store w"
    and "db (snd (get_auto_refresh_data G key fetch_func ttl w)) = db w"
    and "new_events w (snd (get_auto_refresh_data G key fetch_func ttl w)) =
           [Cache OpGetCache (Inr PNone), Cache (OpGet key) (Inr v), CreateTask key ttl]"
  using assms
  by (simp_all add: get_auto_refresh_data_def io_defs)

text \<open>
  On a miss, the dict the loop builds from the fetched list is what
  \<open>get_grouped_user_data\<close> caches and returns.
\<close>

lemma get_grouped_user_data_miss:
  assumes "faults w = no_faults"
    and "case store w (grouped_key group_id) of None \<Rightarrow> True | Some (v, t) \<Rightarrow> \<not> truthy v"
    and "fetch_users_by_group G = Some f"
    and "f [PStr group_id] (db w) = (Inr (PList users), d')"
    and "group_users (PList users) = Inr g"
  shows "fst (get_grouped_user_data G group_id w) = Inr (PDict g)"
    and "store (snd (get_grouped_user_data G group_id w)) (grouped_key group_id) =
           Some (PDict g, 1800)"
  using assms
  by (auto simp: get_grouped_user_data_def io_defs no_faults_def split: option.splits)

section \<open>Properties of the grouping loop\<close>

lemma dict_lookup_setitem:
  "dict_lookup (dict_setitem g k v) k' = (if key_eq k k' then Some v else dict_lookup g k')"
  by (induction g) (auto simp: key_eq_def)

lemma dict_lookup_None_iff:
  "dict_lookup g k = None \<longleftrightarrow> norm_key k \<notin> set (norm_keys g)"
  by (induction g) (auto simp: key_eq_def split: if_splits)

lemma dict_keys_setitem:
  "norm_keys (dict_setitem g k v) =
     (if dict_lookup g k = None then norm_keys g @ [norm_key k]
      else norm_keys g)"
  by (induction g) (auto simp: key_eq_def split: if_splits)

lemma norm_keys_member: "(k, v) \<in> set g \<Longrightarrow> norm_key k \<in> set (norm_keys g)"
  by (induction g) auto

lemma distinct_setitem:
  "distinct (norm_keys g) \<Longrightarrow> distinct (norm_keys (dict_setitem g k v))"
  by (simp add: dict_keys_setitem dict_lookup_None_iff)

lemma values_setitem:
  "(k', v') \<in> set (dict_setitem g k v) \<Longrightarrow> v' = v \<or> (k', v') \<in> set g"
  by (induction g) (auto split: if_splits)

lemma dict_lookup_distinct:
  "distinct (norm_keys g) \<Longrightarrow> (k, v) \<in> set g \<Longrightarrow> dict_lookup g k = Some v"
  using norm_keys_member by (induction g) (fastforce simp: key_eq_def)+

lemma dict_lookup_Some_in:
  "dict_lookup g k = Some v \<Longrightarrow> \<exists>k'. (k', v) \<in> set g \<and> key_eq k' k"
  by (induction g) (auto split: if_splits)

lemma size_setitem_new:
  "dict_lookup g k = None \<Longrightarrow>
     sum_list (map group_size (dict_setitem g k (PList members))) =
       sum_list (map group_size g) + length members"
  by (induction g) (auto split: if_splits)

lemma size_setitem_append:
  "dict_lookup g k = Some (PList members) \<Longrightarrow>
     sum_list (map group_size (dict_setitem g k (PList (members @ [user])))) =
       Suc (sum_list (map group_size g))"
  by (induction g) (auto split: if_splits)

lemma group_members_Cons:
  "group_members k (user # rest) =
     (case user_status user of
        None \<Rightarrow> group_members k rest
      | Some status \<Rightarrow> if key_eq status k then user # group_members k rest
                       else group_members k rest)"
  by (simp add: group_members_def split: option.splits)

lemma group_loop_general:
  assumes "\<forall>user \<in> set users. user_status user \<noteq> None"
    and "distinct (norm_keys g0)"
    and "\<forall>(k, v) \<in> set g0. \<exists>members. v = PList members"
  shows "\<exists>g. group_loop users g0 = Inr g \<and>
           distinct (norm_keys g) \<and>
           (\<forall>(k, v) \<in> set g. \<exists>members. v = PList members) \<and>
           (\<forall>k. members_in g k = members_in g0 k @ group_members k users) \<and>
           (\<forall>k. dict_lookup g k = None \<longleftrightarrow>
                  dict_lookup g0 k = None \<and> group_members k users = []) \<and>
           sum_list (map group_size g) = sum_list (map group_size g0) + length users"
  using assms
proof (induction users arbitrary: g0)
  case Nil
  then show ?case by (simp add: group_members_def)
next
  case (Cons user rest)
  from Cons.prems(1) obtain status where st: "user_status user = Some status"
    by auto
  then have pg: "py_get user (PStr ''status'') (PStr ''unknown'') = Inr status"
    and hs: "hashable status"
    by (auto simp: user_status_def split: sum.splits if_splits)
  define g1 where "g1 = (if dict_lookup g0 status = None
                         then dict_setitem g0 status (PList []) else g0)"
  have d1: "distinct (norm_keys g1)"
    using Cons.prems(2) by (simp add: g1_def distinct_setitem)
  have l1: "\<forall>(k, v) \<in> set g1. \<exists>members. v = PList members"
    using Cons.prems(3) by (auto simp: g1_def dest: values_setitem)
  have lk1: "dict_lookup g1 status = Some (PList (members_in g0 status))"
  proof (cases "dict_lookup g0 status")
    case None
    then show ?thesis
      by (simp add: g1_def dict_lookup_setitem members_in_def key_eq_def)
  next
    case (Some v)
    then obtain k' where "(k', v) \<in> set g0"
      using dict_lookup_Some_in by blast
    with Cons.prems(3) obtain members where "v = PList members" by blast
    with Some show ?thesis
      by (simp add: g1_def members_in_def)
  qed
  have s1: "sum_list (map group_size g1) = sum_list (map group_size g0)"
    by (simp add: g1_def size_setitem_new)
  define g2 where "g2 = dict_setitem g1 status (PList (members_in g0 status @ [user]))"
  have step: "group_loop (user # rest) g0 = group_loop rest g2"
    using pg hs lk1 by (simp add: g1_def [symmetric] g2_def)
  have d2: "distinct (norm_keys g2)"
    using d1 by (simp add: g2_def distinct_setitem)
  have l2: "\<forall>(k, v) \<in> set g2. \<exists>members. v = PList members"
    using l1 by (auto simp: g2_def dest: values_setitem)
  have lk2: "dict_lookup g2 k =
               (if key_eq status k then Some (PList (members_in g0 status @ [user]))
                else dict_lookup g0 k)" for k
    by (simp add: g2_def g1_def dict_lookup_setitem)
  have s2: "sum_list (map group_size g2) = Suc (sum_list (map group_size g0))"
    using lk1 by (simp add: g2_def size_setitem_append s1)
  have same: "members_in g0 status = members_in g0 k" if "key_eq status k" for k
  proof -
    have "dict_lookup g0 status = dict_lookup g0 k"
      using that by (induction g0) (auto simp: key_eq_def)
    then show ?thesis by (simp add: members_in_def)
  qed
  have m2: "members_in g2 k @ group_members k rest =
              members_in g0 k @ group_members k (user # rest)" for k
    by (auto simp: members_in_def [of g2] lk2 group_members_Cons st same)
       (simp add: members_in_def)
  from Cons.prems(1) have rest_ok: "\<forall>user \<in> set rest. user_status user \<noteq> None"
    by simp
  from Cons.IH [OF rest_ok d2 l2] obtain g where
    g: "group_loop rest g2 = Inr g"
    and dg: "distinct (norm_keys g)"
    and lg: "\<forall>(k, v) \<in> set g. \<exists>members. v = PList members"
    and mg: "\<forall>k. members_in g k = members_in g2 k @ group_members k rest"
    and ng: "\<forall>k. dict_lookup g k = None \<longleftrightarrow>
                  dict_lookup g2 k = None \<and> group_members k rest = []"
    and sg: "sum_list (map group_size g) = sum_list (map group_size g2) + length rest"
    by blast
  have "\<forall>k. dict_lookup g k = None \<longleftrightarrow>
              dict_lookup g0 k = None \<and> group_members k (user # rest) = []"
    using ng by (auto simp: lk2 group_members_Cons st)
  with g dg lg mg m2 sg s2 step show ?case
    by simp
qed


lemma members_in_Nil: "members_in [] k = []"
  by (simp add: members_in_def)

lemma group_loop_returns:
  "group_loop users g0 = Inr g \<Longrightarrow> \<forall>user \<in> set users. user_status user \<noteq> None"
proof (induction users arbitrary: g0)
  case Nil
  then show ?case by simp
next
  case (Cons user rest)
  from Cons.prems obtain status where pg: "py_get user (PStr ''status'') (PStr ''unknown'') = Inr status"
    by (cases "py_get user (PStr ''status'') (PStr ''unknown'')") auto
  from Cons.prems pg have hs: "hashable status"
    by (auto split: if_splits)
  from pg hs have "user_status user \<noteq> None"
    by (simp add: user_status_def)
  moreover from Cons.prems pg hs obtain g2 where "group_loop rest g2 = Inr g"
    by (auto simp: Let_def split: option.splits pyval.splits if_splits)
  then have "\<forall>user \<in> set rest. user_status user \<noteq> None"
    by (rule Cons.IH)
  ultimately show ?case by simp
qed

text \<open>
  C10: for a list of users, the loop of \<open>get_grouped_user_data\<close> builds a dict
  exactly when every user is a dict with a hashable status, and the dict it builds is a
  partition of the list: its keys are pairwise different, the list under a key holds
  exactly the users whose status (or \<open>unknown\<close>) equals that key, in input order and
  never empty, every user has its group, and the group sizes add up to the length of the
  input.
\<close>

theorem group_users_partition:
  "((\<exists>g. group_users (PList users) = Inr g) \<longleftrightarrow>
      (\<forall>user \<in> set users. user_status user \<noteq> None)) \<and>
   (\<forall>g. group_users (PList users) = Inr g \<longrightarrow>
      distinct (norm_keys g) \<and>
      (\<forall>(k, v) \<in> set g. v = PList (group_members k users) \<and> group_members k users \<noteq> []) \<and>
      (\<forall>user \<in> set users. \<exists>k v status.
          (k, v) \<in> set g \<and> user_status user = Some status \<and> key_eq status k) \<and>
      sum_list (map group_size g) = length users)"
proof -
  have gu: "group_users (PList users) = group_loop users []"
    by (simp add: group_users_def py_iter_def)
  have props: "distinct (norm_keys g) \<and>
      (\<forall>(k, v) \<in> set g. v = PList (group_members k users) \<and> group_members k users \<noteq> []) \<and>
      (\<forall>user \<in> set users. \<exists>k v status.
          (k, v) \<in> set g \<and> user_status user = Some status \<and> key_eq status k) \<and>
      sum_list (map group_size g) = length users"
    if run: "group_loop users [] = Inr g" for g
  proof -
    from run have ok: "\<forall>user \<in> set users. user_status user \<noteq> None"
      by (rule group_loop_returns)
    from group_loop_general [OF ok, of "[]"] run
    have dg: "distinct (norm_keys g)"
      and lg: "\<forall>(k, v) \<in> set g. \<exists>members. v = PList members"
      and mg: "\<forall>k. members_in g k = group_members k users"
      and ng: "\<forall>k. dict_lookup g k = None \<longleftrightarrow> group_members k users = []"
      and sg: "sum_list (map group_size g) = length users"
      by (auto simp: members_in_Nil)
    have a: "v = PList (group_members k users) \<and> group_members k users \<noteq> []"
      if "(k, v) \<in> set g" for k v
    proof -
      from dg that have lk: "dict_lookup g k = Some v"
        by (rule dict_lookup_distinct)
      from lg that obtain members where v: "v = PList members" by blast
      from lk v have "members_in g k = members"
        by (simp add: members_in_def)
      with mg have "members = group_members k users" by simp
      moreover have "group_members k users \<noteq> []"
      proof
        assume "group_members k users = []"
        with ng have "dict_lookup g k = None" by blast
        with lk show False by simp
      qed
      ultimately show ?thesis using v by simp
    qed
    have b: "\<exists>k v status. (k, v) \<in> set g \<and> user_status user = Some status \<and> key_eq status k"
      if "user \<in> set users" for user
    proof -
      from ok that obtain status where st: "user_status user = Some status" by auto
      with that have "user \<in> set (group_members status users)"
        by (simp add: group_members_def key_eq_def)
      then have "dict_lookup g status \<noteq> None"
        using ng by auto
      then obtain v where "dict_lookup g status = Some v" by auto
      then obtain k where "(k, v) \<in> set g" and "key_eq k status"
        using dict_lookup_Some_in by blast
      with st show ?thesis by (auto simp: key_eq_def)
    qed
    from dg a b sg show ?thesis by blast
  qed
  have "(\<exists>g. group_loop users [] = Inr g) \<longleftrightarrow> (\<forall>user \<in> set users. user_status user \<noteq> None)"
    using group_loop_returns group_loop_general [of users "[]"] by auto
  with props show ?thesis
    unfolding gu by blast
qed

theorem group_users_partition_witness:
  "map user_status example_users =
     [Some (PStr ''active''), Some (PStr ''unknown''), Some (PStr ''active'')] \<and>
   group_users (PList example_users) =
     Inr [(PStr ''active'',
           PList [PDict [(PStr ''name'', PStr ''ann''), (PStr ''status'', PStr ''active'')],
                  PDict [(PStr ''name'', PStr ''cy''), (PStr ''status'', PStr ''active'')]]),
          (PStr ''unknown'', PList [PDict [(PStr ''name'', PStr ''bob'')]])] \<and>
   group_members (PStr ''active'') example_users =
     [PDict [(PStr ''name'', PStr ''ann''), (PStr ''status'', PStr ''active'')],
      PDict [(PStr ''name'', PStr ''cy''), (PStr ''status'', PStr ''active'')]] \<and>
   group_members (PStr ''unknown'') example_users = [PDict [(PStr ''name'', PStr ''bob'')]] \<and>
   sum_list (map group_size
     [(PStr ''active'',
           PList [PDict [(PStr ''name'', PStr ''ann''), (PStr ''status'', PStr ''active'')],
                  PDict [(PStr ''name'', PStr ''cy''), (PStr ''status'', PStr ''active'')]]),
          (PStr ''unknown'', PList [PDict [(PStr ''name'', PStr ''bob'')]])]) = length example_users"
proof -
  have ok: "\<forall>user \<in> set example_users. user_status user \<noteq> None"
    by (simp add: example_users_def user_status_def py_get_def key_eq_def)
  have run: "group_users (PList example_users) =
     Inr [(PStr ''active'',
           PList [PDict [(PStr ''name'', PStr ''ann''), (PStr ''status'', PStr ''active'')],
                  PDict [(PStr ''name'', PStr ''cy''), (PStr ''status'', PStr ''active'')]]),
          (PStr ''unknown'', PList [PDict [(PStr ''name'', PStr ''bob'')]])]"
    by (simp add: example_users_def group_users_def py_iter_def py_get_def key_eq_def)
  have total: "sum_list (map group_size
     [(PStr ''active'',
           PList [PDict [(PStr ''name'', PStr ''ann''), (PStr ''status'', PStr ''active'')],
                  PDict [(PStr ''name'', PStr ''cy''), (PStr ''status'', PStr ''active'')]]),
          (PStr ''unknown'', PList [PDict [(PStr ''name'', PStr ''bob'')]])]) = length example_users"
    using group_users_partition [of example_users, THEN conjunct2, rule_format, OF run]
      group_users_partition [of example_users, THEN conjunct1] ok
    by blast
  have m1: "group_members (PStr ''active'') example_users =
     [PDict [(PStr ''name'', PStr ''ann''), (PStr ''status'', PStr ''active'')],
      PDict [(PStr ''name'', PStr ''cy''), (PStr ''status'', PStr ''active'')]]"
    by (simp add: example_users_def group_members_def user_status_def py_get_def key_eq_def)
  have m2: "group_members (PStr ''unknown'') example_users = [PDict [(PStr ''name'', PStr ''bob'')]]"
    by (simp add: example_users_def group_members_def user_status_def py_get_def key_eq_def)
  have sts: "map user_status example_users =
     [Some (PStr ''active''), Some (PStr ''unknown''), Some (PStr ''active'')]"
    by (simp add: example_users_def user_status_def py_get_def key_eq_def)
  from sts run m1 m2 total show ?thesis
    by (intro conjI)
qed

end
